theory Spec2Isabelle
  imports Main "HOL-Library.Word"
begin

section \<open>The power-monitor binding (atom/browser/api/atom\_api\_power\_monitor.cc)\<close>

text \<open>
  A \<open>PowerMonitor\<close> object lives on the C++ heap and is known by its address. The part of
  the process the binding touches is kept in one record: the readiness flag of the
  \<open>Browser\<close> singleton, the observer list of the process-wide \<open>base::PowerMonitor\<close>,
  the exception pending in the V8 isolate, the events handed to the script side, the
  allocator, and the objects wrapped in a script handle.
\<close>

type_synonym object_ref = nat

datatype v8_value = Null | Object object_ref

record process =
  is_ready :: bool
  observers :: "object_ref list"
  pending_exception :: "string option"
  emitted :: "(object_ref \<times> string) list"
  next_object :: object_ref
  wrapped :: "object_ref list"

text \<open>
  Modelled from the spec: the observer list of \<open>base::PowerMonitor\<close> (its source is not
  part of the fragment). The spec speaks of registering an observer and of unregistering
  it; the list holds each registered observer once, adding an observer that is already
  there changes nothing, and removing takes the observer's entry out.
\<close>

definition AddObserver :: "object_ref \<Rightarrow> object_ref list \<Rightarrow> object_ref list" where
  "AddObserver obs xs = (if obs \<in> set xs then xs else xs @ [obs])"

definition RemoveObserver :: "object_ref \<Rightarrow> object_ref list \<Rightarrow> object_ref list" where
  "RemoveObserver obs xs = remove1 obs xs"

text \<open>
  Modelled from the spec: \<open>Emit\<close> of the event-emitter base class (declared outside the
  fragment). The spec says the binding emits named events to its host scripting
  environment; the model appends the name, with the emitting object, to the events the
  script side has received.
\<close>

definition Emit :: "object_ref \<Rightarrow> string \<Rightarrow> process \<Rightarrow> process" where
  "Emit this name p = p\<lparr>emitted := emitted p @ [(this, name)]\<rparr>"

text \<open>
  Modelled from the spec: \<open>node::ThrowError\<close> leaves a host-visible error pending in the
  isolate.
\<close>

definition ThrowError :: "string \<Rightarrow> process \<Rightarrow> process" where
  "ThrowError msg p = p\<lparr>pending_exception := Some msg\<rparr>"

text \<open>
  Modelled from the spec: \<open>CreateHandle(isolate, object).ToV8()\<close> wraps the object and
  yields the script value that stands for it.
\<close>

definition CreateHandle :: "object_ref \<Rightarrow> process \<Rightarrow> v8_value \<times> process" where
  "CreateHandle obj p = (Object obj, p\<lparr>wrapped := wrapped p @ [obj]\<rparr>)"

text \<open>Constructor and destructor: lines 18 to 24.\<close>

definition PowerMonitor_ctor :: "object_ref \<Rightarrow> process \<Rightarrow> process" where
  "PowerMonitor_ctor this p = p\<lparr>observers := AddObserver this (observers p)\<rparr>"

definition PowerMonitor_dtor :: "object_ref \<Rightarrow> process \<Rightarrow> process" where
  "PowerMonitor_dtor this p = p\<lparr>observers := RemoveObserver this (observers p)\<rparr>"

text \<open>The three observer callbacks: lines 26 to 39.\<close>

definition OnPowerStateChange :: "object_ref \<Rightarrow> bool \<Rightarrow> process \<Rightarrow> process" where
  "OnPowerStateChange this on_battery_power p =
     (if on_battery_power then Emit this ''on-battery'' p else Emit this ''on-ac'' p)"

definition OnSuspend :: "object_ref \<Rightarrow> process \<Rightarrow> process" where
  "OnSuspend this p = Emit this ''suspend'' p"

definition OnResume :: "object_ref \<Rightarrow> process \<Rightarrow> process" where
  "OnResume this p = Emit this ''resume'' p"

text \<open>
  The notifications the power source delivers to a registered observer, and their
  delivery by virtual dispatch to the callback of that name.
\<close>

datatype power_notification = PowerStateChange bool | Suspend | Resume

fun notify :: "object_ref \<Rightarrow> power_notification \<Rightarrow> process \<Rightarrow> process" where
  "notify this (PowerStateChange on_battery_power) p = OnPowerStateChange this on_battery_power p"
| "notify this Suspend p = OnSuspend this p"
| "notify this Resume p = OnResume this p"

text \<open>
  \<open>new PowerMonitor\<close>: the allocator hands out an address no object has had, and the
  constructor runs on it.
\<close>

definition new_PowerMonitor :: "process \<Rightarrow> object_ref \<times> process" where
  "new_PowerMonitor p =
     (let this = next_object p
      in (this, PowerMonitor_ctor this (p\<lparr>next_object := Suc this\<rparr>)))"

text \<open>\<open>PowerMonitor::Create\<close>: lines 42 to 51.\<close>

definition not_ready_message :: string where
  "not_ready_message = ''Cannot initialize \"power-monitor\" module before app is ready''"

definition Create :: "process \<Rightarrow> v8_value \<times> process" where
  "Create p =
     (if \<not> is_ready p then (Null, ThrowError not_ready_message p)
      else (case new_PowerMonitor p of (obj, p') \<Rightarrow> CreateHandle obj p'))"

text \<open>
  What can happen to the process while a \<open>PowerMonitor\<close> is alive: the script side
  asks for another binding object, an object is destroyed, or the power source notifies
  one of its registered observers.
\<close>

datatype activity = Creates | Destroys object_ref | Notifies object_ref power_notification

fun step :: "activity \<Rightarrow> process \<Rightarrow> process" where
  "step Creates p = snd (Create p)"
| "step (Destroys obj) p = PowerMonitor_dtor obj p"
| "step (Notifies obj n) p = (if obj \<in> set (observers p) then notify obj n p else p)"

definition run :: "activity list \<Rightarrow> process \<Rightarrow> process" where
  "run acts p = fold step acts p"

text \<open>The events a step added to those the script side had received before it.\<close>

definition new_events :: "process \<Rightarrow> process \<Rightarrow> (object_ref \<times> string) list" where
  "new_events p p' = drop (length (emitted p)) (emitted p')"

text \<open>
  The spec's table of events, for comparison with the callbacks: battery-power transition
  to \<open>on-battery\<close>, AC transition to \<open>on-ac\<close>, suspend to \<open>suspend\<close>, resume to
  \<open>resume\<close>.
\<close>

fun spec_event_name :: "power_notification \<Rightarrow> string" where
  "spec_event_name (PowerStateChange on_battery_power) =
     (if on_battery_power then ''on-battery'' else ''on-ac'')"
| "spec_event_name Suspend = ''suspend''"
| "spec_event_name Resume = ''resume''"

text \<open>Two processes used as concrete inputs: before and after the application is ready.\<close>

definition starting_process :: process where
  "starting_process =
     \<lparr>is_ready = False, observers = [], pending_exception = None, emitted = [],
      next_object = 0, wrapped = []\<rparr>"

definition ready_process :: process where
  "ready_process = starting_process\<lparr>is_ready := True\<rparr>"

section \<open>The message box (browser/message\_box\_win.cc)\<close>

subsection \<open>Values of the toolkit\<close>

text \<open>
  The C++ \<open>int\<close> of the platform has 32 bits: the tag of a button, the result of the
  dialog and the value \<open>ShowMessageBox\<close> returns are 32-bit words, read as signed numbers
  by \<open>sint\<close>. A \<open>size_t\<close> index is a natural number; storing it in an \<open>int\<close> keeps its
  low 32 bits. Pixel coordinates are integers; no property below depends on their range.
\<close>

type_synonym int32 = "32 word"

definition int_of_size_t :: "nat \<Rightarrow> int32" where
  "int_of_size_t i = of_nat i"

definition INT_MAX :: nat where
  "INT_MAX = 2147483647"

type_synonym string16 = "16 word list"

text \<open>
  What goes wrong in the constructor on an empty label list: a failed \<open>DCHECK\<close> in a build
  that compiles the check in, a read of a vector outside its range otherwise.
\<close>

datatype error = DCheckFailed | IndexOutOfRange

text \<open>\<open>v[i]\<close> on a \<open>std::vector\<close>, with the read outside the range made a value.\<close>

definition at_index :: "'a list \<Rightarrow> nat \<Rightarrow> error + 'a" where
  "at_index v i = (if i < length v then Inr (v ! i) else Inl IndexOutOfRange)"

text \<open>
  \<open>gfx::Size\<close> and \<open>gfx::Rect\<close> of the toolkit. A size stores zero for an extent below
  zero, in its constructor and in its setters; \<open>Enlarge\<close> adds to both extents.
\<close>

record Size =
  width :: int
  height :: int

record Rect =
  rect_x :: int
  rect_y :: int
  rect_width :: int
  rect_height :: int

definition new_Size :: "int \<Rightarrow> int \<Rightarrow> Size" where
  "new_Size w h = \<lparr>width = (if w < 0 then 0 else w), height = (if h < 0 then 0 else h)\<rparr>"

definition set_width :: "int \<Rightarrow> Size \<Rightarrow> Size" where
  "set_width w s = s\<lparr>width := (if w < 0 then 0 else w)\<rparr>"

definition set_height :: "int \<Rightarrow> Size \<Rightarrow> Size" where
  "set_height h s = s\<lparr>height := (if h < 0 then 0 else h)\<rparr>"

definition Enlarge :: "int \<Rightarrow> int \<Rightarrow> Size \<Rightarrow> Size" where
  "Enlarge w h s = set_height (height s + h) (set_width (width s + w) s)"

text \<open>\<open>views::LabelButton\<close>: a new button has the tag \<open>-1\<close> and is not the default.\<close>

datatype ButtonStyle = STYLE_TEXTBUTTON | STYLE_NATIVE_TEXTBUTTON

record LabelButton =
  label :: string16
  tag :: int32
  min_size :: Size
  style :: ButtonStyle
  is_default :: bool
  button_bounds :: Rect

definition new_LabelButton :: "string16 \<Rightarrow> LabelButton" where
  "new_LabelButton text16 =
     \<lparr>label = text16, tag = - 1, min_size = new_Size 0 0,
      style = STYLE_TEXTBUTTON, is_default = False,
      button_bounds = \<lparr>rect_x = 0, rect_y = 0, rect_width = 0, rect_height = 0\<rparr>\<rparr>"

definition set_tag :: "int32 \<Rightarrow> LabelButton \<Rightarrow> LabelButton" where
  "set_tag t b = b\<lparr>tag := t\<rparr>"

definition set_min_size :: "Size \<Rightarrow> LabelButton \<Rightarrow> LabelButton" where
  "set_min_size s b = b\<lparr>min_size := s\<rparr>"

definition SetStyle :: "ButtonStyle \<Rightarrow> LabelButton \<Rightarrow> LabelButton" where
  "SetStyle st b = b\<lparr>style := st\<rparr>"

definition SetIsDefault :: "bool \<Rightarrow> LabelButton \<Rightarrow> LabelButton" where
  "SetIsDefault v b = b\<lparr>is_default := v\<rparr>"

definition SetBounds :: "int \<Rightarrow> int \<Rightarrow> int \<Rightarrow> int \<Rightarrow> LabelButton \<Rightarrow> LabelButton" where
  "SetBounds x y w h b =
     b\<lparr>button_bounds := \<lparr>rect_x = x, rect_y = y, rect_width = w, rect_height = h\<rparr>\<rparr>"

text \<open>
  \<open>views::MessageBoxView\<close>: the one argument of \<open>InitParams\<close> is the message, which
  line 84 then assigns again.
\<close>

record InitParams =
  message :: string16

definition new_InitParams :: "string16 \<Rightarrow> InitParams" where
  "new_InitParams m = \<lparr>message = m\<rparr>"

record MessageBoxView =
  params :: InitParams
  box_bounds :: Rect

definition new_MessageBoxView :: "InitParams \<Rightarrow> MessageBoxView" where
  "new_MessageBoxView ps =
     \<lparr>params = ps, box_bounds = \<lparr>rect_x = 0, rect_y = 0, rect_width = 0, rect_height = 0\<rparr>\<rparr>"

definition SetBoxBounds :: "int \<Rightarrow> int \<Rightarrow> int \<Rightarrow> int \<Rightarrow> MessageBoxView \<Rightarrow> MessageBoxView" where
  "SetBoxBounds x y w h v =
     v\<lparr>box_bounds := \<lparr>rect_x = x, rect_y = y, rect_width = w, rect_height = h\<rparr>\<rparr>"

text \<open>
  \<open>views::Widget\<close>, as far as the dialog uses it: its frame type, its parent window, and
  whether it was initialised, shown and asked to close. \<open>NativeWindow\<close> is the
  application's window class; the dialog reads its native handle.
\<close>

datatype FrameType = FRAME_TYPE_DEFAULT | FRAME_TYPE_FORCE_CUSTOM | FRAME_TYPE_FORCE_NATIVE

record NativeWindow =
  native_window :: nat

definition GetNativeWindow :: "NativeWindow \<Rightarrow> nat" where
  "GetNativeWindow w = native_window w"

record Widget =
  frame_type :: FrameType
  parent :: "nat option"
  initialised :: bool
  visible :: bool
  close_requested :: bool

definition new_Widget :: Widget where
  "new_Widget =
     \<lparr>frame_type = FRAME_TYPE_DEFAULT, parent = None, initialised = False, visible = False,
      close_requested = False\<rparr>"

definition set_frame_type :: "FrameType \<Rightarrow> Widget \<Rightarrow> Widget" where
  "set_frame_type t w = w\<lparr>frame_type := t\<rparr>"

definition Init :: "nat option \<Rightarrow> Widget \<Rightarrow> Widget" where
  "Init widget_params_parent w = w\<lparr>parent := widget_params_parent, initialised := True\<rparr>"

definition Show :: "Widget \<Rightarrow> Widget" where
  "Show w = w\<lparr>visible := True\<rparr>"

definition Close :: "Widget \<Rightarrow> Widget" where
  "Close w = w\<lparr>close_requested := True\<rparr>"

text \<open>
  What the code takes from its surroundings and the sources do not fix: whether
  \<open>DCHECK\<close> is compiled in, the conversion of UTF-8 to UTF-16, the two layout constants,
  the size a button and the message area ask for, and the system's window colour.
\<close>

record toolkit =
  dcheck_is_on :: bool
  UTF8ToUTF16 :: "string \<Rightarrow> string16"
  kRelatedButtonHSpacing :: int
  kRelatedControlVerticalSpacing :: int
  button_preferred_size :: "LabelButton \<Rightarrow> Size"
  box_preferred_size :: "MessageBoxView \<Rightarrow> Size"
  sys_color_window :: nat

text \<open>
  Modelled from the spec: \<open>LowerCaseEqualsASCII\<close> of the base library, the
  case-insensitive comparison of a label with a lower-case ASCII word. It walks the label
  and the word together, lowers each ASCII capital of the label, and accepts when both end
  at the same place.
\<close>

definition ToLowerASCII :: "char \<Rightarrow> char" where
  "ToLowerASCII c =
     (if 65 \<le> (of_char c :: nat) \<and> (of_char c :: nat) \<le> 90
      then char_of ((of_char c :: nat) + 32) else c)"

fun LowerCaseEqualsASCII :: "string \<Rightarrow> string \<Rightarrow> bool" where
  "LowerCaseEqualsASCII [] b = (b = [])"
| "LowerCaseEqualsASCII (c # a) [] = False"
| "LowerCaseEqualsASCII (c # a) (x # b) =
     (if ToLowerASCII c \<noteq> x then False else LowerCaseEqualsASCII a b)"

subsection \<open>The dialog\<close>

text \<open>
  The fields of \<open>MessageDialog\<close>, lines 58 to 62, and the background the constructor
  sets. The two pointers are set by the constructor before it returns and never again,
  so the dialog holds the objects themselves. A member \<open>x_\<close> of the class is the field
  \<open>m_x\<close> of the record. The list of child views that the base class
  \<open>views::View\<close> keeps is the toolkit's; the code reaches the children through
  \<open>message_box_view_\<close> and \<open>buttons_\<close> only.
\<close>

record MessageDialog =
  m_should_close :: bool
  m_result :: int32
  m_widget :: Widget
  m_message_box_view :: MessageBoxView
  m_buttons :: "LabelButton list"
  owned_by_client :: bool
  background :: "nat option"

text \<open>The loop of lines 88 to 97: one button for each label, tagged with its index.\<close>

function MessageDialog_buttons ::
  "toolkit \<Rightarrow> string list \<Rightarrow> nat \<Rightarrow> LabelButton list \<Rightarrow> error + LabelButton list" where
  "MessageDialog_buttons tk buttons i bs =
     (if i < length buttons then
        (case at_index buttons i of
           Inl e \<Rightarrow> Inl e
         | Inr text8 \<Rightarrow>
             let button = new_LabelButton (UTF8ToUTF16 tk text8);
                 button = set_tag (int_of_size_t i) button;
                 button = set_min_size (new_Size 60 20) button;
                 button = SetStyle STYLE_NATIVE_TEXTBUTTON button
             in MessageDialog_buttons tk buttons (i + 1) (bs @ [button]))
      else Inr bs)"
  by pat_completeness auto
termination
  by (relation "measure (\<lambda>(tk, buttons, i, bs). length buttons - i)") auto

declare MessageDialog_buttons.simps [simp del]

text \<open>
  The constructor, lines 70 to 111. \<open>type\<close> and \<open>detail\<close> are parameters the body never
  mentions.
\<close>

definition MessageDialog_ctor ::
  "toolkit \<Rightarrow> NativeWindow option \<Rightarrow> 'ty \<Rightarrow> string list \<Rightarrow> string \<Rightarrow> string \<Rightarrow> string
   \<Rightarrow> error + MessageDialog" where
  "MessageDialog_ctor tk parent_window type buttons title message_text detail =
     (if dcheck_is_on tk \<and> \<not> length buttons > 0 then Inl DCheckFailed
      else
        let ps = new_InitParams (UTF8ToUTF16 tk title);
            ps = ps\<lparr>message := UTF8ToUTF16 tk message_text\<rparr>;
            box = new_MessageBoxView ps
        in (case MessageDialog_buttons tk buttons 0 [] of
              Inl e \<Rightarrow> Inl e
            | Inr bs \<Rightarrow>
               (case at_index bs 0 of
                  Inl e \<Rightarrow> Inl e
                | Inr b0 \<Rightarrow>
                    let bs = bs[0 := SetIsDefault True b0];
                        widget_params_parent = map_option GetNativeWindow parent_window;
                        widget = new_Widget;
                        widget = set_frame_type FRAME_TYPE_FORCE_NATIVE widget;
                        widget = Init widget_params_parent widget;
                        widget = Show widget
                    in Inr \<lparr>m_should_close = False, m_result = - 1, m_widget = widget,
                            m_message_box_view = box, m_buttons = bs,
                            owned_by_client = True,
                            background = Some (sys_color_window tk)\<rparr>)))"

text \<open>\<open>result()\<close>, line 37.\<close>

definition result :: "MessageDialog \<Rightarrow> int32" where
  "result d = m_result d"

text \<open>\<open>WindowClosing\<close>, lines 125 to 127.\<close>

definition WindowClosing :: "MessageDialog \<Rightarrow> MessageDialog" where
  "WindowClosing d = d\<lparr>m_should_close := True\<rparr>"

text \<open>\<open>GetPreferredSize\<close>, lines 145 to 161, with its loop.\<close>

function GetPreferredSize_loop ::
  "toolkit \<Rightarrow> LabelButton list \<Rightarrow> nat \<Rightarrow> Size \<Rightarrow> error + Size" where
  "GetPreferredSize_loop tk bs i sz =
     (if i < length bs then
        (case at_index bs i of
           Inl e \<Rightarrow> Inl e
         | Inr b \<Rightarrow>
             GetPreferredSize_loop tk bs (i + 1)
               (Enlarge (width (button_preferred_size tk b)) 0 sz))
      else Inr sz)"
  by pat_completeness auto
termination
  by (relation "measure (\<lambda>(tk, bs, i, sz). length bs - i)") auto

declare GetPreferredSize_loop.simps [simp del]

definition GetPreferredSize :: "toolkit \<Rightarrow> MessageDialog \<Rightarrow> error + Size" where
  "GetPreferredSize tk d =
     (case at_index (m_buttons d) 0 of
        Inl e \<Rightarrow> Inl e
      | Inr b0 \<Rightarrow>
         (case GetPreferredSize_loop tk (m_buttons d) 0
                 (new_Size 0 (height (button_preferred_size tk b0))) of
            Inl e \<Rightarrow> Inl e
          | Inr sz \<Rightarrow>
              let sz = Enlarge (kRelatedButtonHSpacing tk * (int (length (m_buttons d)) - 1))
                         (kRelatedControlVerticalSpacing tk) sz;
                  contents_size = box_preferred_size tk (m_message_box_view d);
                  sz = Enlarge 0 (height contents_size) sz;
                  sz = (if width contents_size > width sz
                        then set_width (width contents_size) sz else sz)
              in Inr sz))"

text \<open>\<open>Layout\<close>, lines 163 to 181, with its loop; \<open>bounds\<close> is what \<open>GetContentsBounds\<close> gives.\<close>

function Layout_loop ::
  "toolkit \<Rightarrow> Rect \<Rightarrow> int \<Rightarrow> nat \<Rightarrow> int \<Rightarrow> LabelButton list \<Rightarrow> error + LabelButton list" where
  "Layout_loop tk bounds h i x bs =
     (if i < length bs then
        (case at_index bs i of
           Inl e \<Rightarrow> Inl e
         | Inr b \<Rightarrow>
             let sz = button_preferred_size tk b;
                 x = x - (width sz + kRelatedButtonHSpacing tk)
             in Layout_loop tk bounds h (i + 1) x
                  (bs[i := SetBounds x (rect_height bounds - h) (width sz) (height sz) b]))
      else Inr bs)"
  by pat_completeness auto
termination
  by (relation "measure (\<lambda>(tk, bounds, h, i, x, bs). length bs - i)") auto

declare Layout_loop.simps [simp del]

definition Layout :: "toolkit \<Rightarrow> Rect \<Rightarrow> MessageDialog \<Rightarrow> error + MessageDialog" where
  "Layout tk bounds d =
     (case at_index (m_buttons d) 0 of
        Inl e \<Rightarrow> Inl e
      | Inr b0 \<Rightarrow>
          let x = rect_width bounds;
              h = height (button_preferred_size tk b0) + kRelatedControlVerticalSpacing tk
          in (case Layout_loop tk bounds h 0 x (m_buttons d) of
                Inl e \<Rightarrow> Inl e
              | Inr bs \<Rightarrow>
                  Inr (d\<lparr>m_buttons := bs,
                         m_message_box_view :=
                           SetBoxBounds (rect_x bounds) (rect_y bounds) (rect_width bounds)
                             (rect_height bounds - h) (m_message_box_view d)\<rparr>)))"

text \<open>\<open>ButtonPressed\<close>, lines 183 to 187.\<close>

definition ButtonPressed :: "LabelButton \<Rightarrow> MessageDialog \<Rightarrow> MessageDialog" where
  "ButtonPressed sender d = d\<lparr>m_result := tag sender, m_widget := Close (m_widget d)\<rparr>"

subsection \<open>The nested event loop\<close>

text \<open>
  A native event reaches the dialog as the calls the toolkit makes on it while the event
  is translated and dispatched: a click on the \<open>i\<close>-th button of the dialog, which that
  button reports to its listener; the destruction of the window, reported to the widget's
  delegate; a layout pass over the given contents bounds; a request for the preferred
  size. A click that names no button of the dialog reaches no listener.
\<close>

datatype callback = NotifyClick nat | WidgetDestroying | LayoutPass Rect | SizeRequest

type_synonym NativeEvent = "callback list"

fun deliver :: "toolkit \<Rightarrow> callback \<Rightarrow> MessageDialog \<Rightarrow> error + MessageDialog" where
  "deliver tk (NotifyClick i) d =
     (if i < length (m_buttons d) then Inr (ButtonPressed (m_buttons d ! i) d) else Inr d)"
| "deliver tk WidgetDestroying d = Inr (WindowClosing d)"
| "deliver tk (LayoutPass bounds) d = Layout tk bounds d"
| "deliver tk SizeRequest d =
     (case GetPreferredSize tk d of Inl e \<Rightarrow> Inl e | Inr sz \<Rightarrow> Inr d)"

fun DispatchMessage :: "toolkit \<Rightarrow> NativeEvent \<Rightarrow> MessageDialog \<Rightarrow> error + MessageDialog" where
  "DispatchMessage tk [] d = Inr d"
| "DispatchMessage tk (c # cs) d =
     (case deliver tk c d of Inl e \<Rightarrow> Inl e | Inr d' \<Rightarrow> DispatchMessage tk cs d')"

text \<open>\<open>Dispatch\<close>, lines 119 to 123: the flag it returns says whether the loop goes on.\<close>

definition Dispatch ::
  "toolkit \<Rightarrow> NativeEvent \<Rightarrow> MessageDialog \<Rightarrow> error + (bool \<times> MessageDialog)" where
  "Dispatch tk event d =
     (case DispatchMessage tk event d of
        Inl e \<Rightarrow> Inl e
      | Inr d' \<Rightarrow> Inr (\<not> m_should_close d', d'))"

text \<open>
  Modelled from the spec: \<open>base::RunLoop::Run\<close> with the dialog as dispatcher, the nested
  iteration of the host's event loop. It hands each native event to \<open>Dispatch\<close> and goes
  on while \<open>Dispatch\<close> says so. The list holds every event the thread is ever sent; when
  it is used up the loop waits for ever, and \<open>Run\<close> gives \<open>None\<close>.
\<close>

fun Run ::
  "toolkit \<Rightarrow> NativeEvent list \<Rightarrow> MessageDialog \<Rightarrow> (error + MessageDialog) option" where
  "Run tk [] d = None"
| "Run tk (event # events) d =
     (case Dispatch tk event d of
        Inl e \<Rightarrow> Some (Inl e)
      | Inr (continue, d') \<Rightarrow> if continue then Run tk events d' else Some (Inr d'))"

text \<open>\<open>ShowMessageBox\<close>, lines 191 to 217, with the loop of lines 208 to 211.\<close>

function ShowMessageBox_loop :: "string list \<Rightarrow> nat \<Rightarrow> error + int32" where
  "ShowMessageBox_loop buttons i =
     (if i < length buttons then
        (case at_index buttons i of
           Inl e \<Rightarrow> Inl e
         | Inr text8 \<Rightarrow>
             if LowerCaseEqualsASCII text8 ''cancel'' then Inr (int_of_size_t i)
             else ShowMessageBox_loop buttons (i + 1))
      else Inr 0)"
  by pat_completeness auto
termination
  by (relation "measure (\<lambda>(buttons, i). length buttons - i)") auto

declare ShowMessageBox_loop.simps [simp del]

definition ShowMessageBox ::
  "toolkit \<Rightarrow> NativeWindow option \<Rightarrow> 'ty \<Rightarrow> string list \<Rightarrow> string \<Rightarrow> string \<Rightarrow> string
   \<Rightarrow> NativeEvent list \<Rightarrow> (error + int32) option" where
  "ShowMessageBox tk parent_window type buttons title message_text detail events =
     (case MessageDialog_ctor tk parent_window type buttons title message_text detail of
        Inl e \<Rightarrow> Some (Inl e)
      | Inr dialog \<Rightarrow>
         (case Run tk events dialog of
            None \<Rightarrow> None
          | Some (Inl e) \<Rightarrow> Some (Inl e)
          | Some (Inr dialog) \<Rightarrow>
              if result dialog = - 1 then Some (ShowMessageBox_loop buttons 0)
              else Some (Inr (result dialog))))"

text \<open>
  The button the user pressed, as the calls delivered tell it: the last click that named
  one of the \<open>n\<close> buttons of the dialog, if there was one.
\<close>

fun pressed :: "nat \<Rightarrow> callback list \<Rightarrow> nat option" where
  "pressed n [] = None"
| "pressed n (c # cs) =
     (case pressed n cs of
        Some i \<Rightarrow> Some i
      | None \<Rightarrow> (case c of NotifyClick i \<Rightarrow> if i < n then Some i else None | _ \<Rightarrow> None))"

text \<open>A toolkit used as concrete input.\<close>

definition test_toolkit :: toolkit where
  "test_toolkit =
     \<lparr>dcheck_is_on = False, UTF8ToUTF16 = map (\<lambda>c. of_nat (of_char c)),
      kRelatedButtonHSpacing = 6, kRelatedControlVerticalSpacing = 7,
      button_preferred_size = (\<lambda>b. new_Size 75 23),
      box_preferred_size = (\<lambda>v. new_Size 200 50),
      sys_color_window = 16777215\<rparr>"

text \<open>
  The invariant of the dialog between its construction and its destruction: it has the
  \<open>n\<close> buttons made from the \<open>n\<close> labels, \<open>n\<close> is not zero, and the tag of each button
  is its index.
\<close>

definition well_tagged :: "nat \<Rightarrow> MessageDialog \<Rightarrow> bool" where
  "well_tagged n d \<longleftrightarrow> 0 < n \<and> map tag (m_buttons d) = map int_of_size_t [0..<n]"

text \<open>A dialog with one button, used as concrete input.\<close>

definition sample_dialog :: MessageDialog where
  "sample_dialog =
     \<lparr>m_should_close = False, m_result = - 1,
      m_widget = Show (Init None (set_frame_type FRAME_TYPE_FORCE_NATIVE new_Widget)),
      m_message_box_view = new_MessageBoxView (new_InitParams []),
      m_buttons = [SetIsDefault True (set_tag 0 (new_LabelButton []))],
      owned_by_client = True, background = None\<rparr>"

section \<open>Properties of the power-monitor binding\<close>

lemma notify_emits: "notify this n p = p\<lparr>emitted := emitted p @ [(this, spec_event_name n)]\<rparr>"
  by (cases n) (simp_all add: OnPowerStateChange_def OnSuspend_def OnResume_def Emit_def)

lemma spec_event_name_inj: "spec_event_name n = spec_event_name n' \<longleftrightarrow> n = n'"
  by (cases n; cases n') (auto split: if_splits)

text \<open>
  C3. Every power-state callback emits exactly one event and nothing else: a change to
  battery power emits \<open>on-battery\<close>, a change to AC power emits \<open>on-ac\<close>, a suspend
  emits \<open>suspend\<close>, a resume emits \<open>resume\<close>. The callbacks follow the spec's table,
  and the table sends different notifications to different names.
\<close>

theorem power_callbacks_emit_one_event:
  "new_events p (OnPowerStateChange this True p) = [(this, ''on-battery'')]
   \<and> new_events p (OnPowerStateChange this False p) = [(this, ''on-ac'')]
   \<and> new_events p (OnSuspend this p) = [(this, ''suspend'')]
   \<and> new_events p (OnResume this p) = [(this, ''resume'')]
   \<and> notify this n p = p\<lparr>emitted := emitted p @ [(this, spec_event_name n)]\<rparr>
   \<and> ((spec_event_name n = spec_event_name n') = (n = n'))"
proof -
  have "new_events p (OnPowerStateChange this True p) = [(this, ''on-battery'')]"
    by (simp add: new_events_def OnPowerStateChange_def Emit_def)
  moreover have "new_events p (OnPowerStateChange this False p) = [(this, ''on-ac'')]"
    by (simp add: new_events_def OnPowerStateChange_def Emit_def)
  moreover have "new_events p (OnSuspend this p) = [(this, ''suspend'')]"
    by (simp add: new_events_def OnSuspend_def Emit_def)
  moreover have "new_events p (OnResume this p) = [(this, ''resume'')]"
    by (simp add: new_events_def OnResume_def Emit_def)
  ultimately show ?thesis
    using notify_emits [of this n p] spec_event_name_inj [of n n'] by simp
qed

text \<open>
  C4. While the application is not ready, \<open>Create\<close> leaves the error pending in the
  isolate, returns the null value, and builds, registers and wraps no object. Once the
  application is ready, \<open>Create\<close> returns the handle of a newly built object, which is
  registered with the power source and wrapped, and the isolate's pending exception is
  what it was: no error is raised.
\<close>

theorem Create_fails_until_ready:
  "(\<not> is_ready p \<longrightarrow>
      Create p = (Null, p\<lparr>pending_exception := Some not_ready_message\<rparr>))
   \<and> (is_ready p \<longrightarrow>
      fst (Create p) = Object (next_object p)
      \<and> next_object p \<in> set (observers (snd (Create p)))
      \<and> next_object p \<in> set (wrapped (snd (Create p)))
      \<and> pending_exception (snd (Create p)) = pending_exception p)"
  by (simp add: Create_def ThrowError_def new_PowerMonitor_def CreateHandle_def
      PowerMonitor_ctor_def AddObserver_def Let_def)

theorem Create_fails_until_ready_witness:
  "\<not> is_ready starting_process
   \<and> fst (Create starting_process) = Null
   \<and> pending_exception (snd (Create starting_process)) = Some not_ready_message
   \<and> observers (snd (Create starting_process)) = []
   \<and> is_ready ready_process
   \<and> fst (Create ready_process) = Object 0
   \<and> observers (snd (Create ready_process)) = [0]
   \<and> pending_exception (snd (Create ready_process)) = None"
  using Create_fails_until_ready [of starting_process]
    Create_fails_until_ready [of ready_process]
  by (simp add: starting_process_def ready_process_def Create_def new_PowerMonitor_def
      CreateHandle_def PowerMonitor_ctor_def AddObserver_def Let_def)

lemma count_AddObserver:
  "count_list (AddObserver obs xs) this =
     (if obs = this \<and> this \<notin> set xs then 1 else count_list xs this)"
  by (auto simp: AddObserver_def)

lemma count_remove1_other: "obs \<noteq> this \<Longrightarrow> count_list (remove1 obs xs) this = count_list xs this"
  by (induction xs) auto

lemma count_one_in_set: "count_list xs this = Suc 0 \<Longrightarrow> this \<in> set xs"
  by (metis count_list_0_iff n_not_Suc_n)

lemma step_keeps_registration:
  assumes "count_list (observers p) this = 1" and "a \<noteq> Destroys this"
  shows "count_list (observers (step a p)) this = 1"
proof (cases a)
  case Creates
  with assms show ?thesis
    by (auto simp: Create_def ThrowError_def new_PowerMonitor_def CreateHandle_def
        PowerMonitor_ctor_def count_AddObserver Let_def dest: count_one_in_set)
next
  case (Destroys obj)
  with assms show ?thesis
    by (simp add: PowerMonitor_dtor_def RemoveObserver_def count_remove1_other)
next
  case (Notifies obj n)
  with assms show ?thesis
    by (simp add: notify_emits)
qed

lemma run_keeps_registration:
  "count_list (observers p) this = 1 \<Longrightarrow> Destroys this \<notin> set acts \<Longrightarrow>
   count_list (observers (run acts p)) this = 1"
proof (induction acts arbitrary: p)
  case Nil
  then show ?case by (simp add: run_def)
next
  case (Cons a acts)
  from Cons.prems have "count_list (observers (step a p)) this = 1"
    by (intro step_keeps_registration) auto
  with Cons.IH [of "step a p"] Cons.prems(2) show ?case
    by (simp add: run_def)
qed

lemma remove1_last_registration:
  "count_list xs this = 1 \<Longrightarrow> this \<notin> set (remove1 this xs)"
  by (induction xs) (auto simp: count_list_0_iff split: if_splits)

text \<open>
  C6. The binding holds exactly one observer registration from its construction to its
  destruction. The constructor, run on a newly allocated object, registers it once;
  whatever happens in the process before the object is destroyed (other bindings are
  created or destroyed, notifications are delivered), the object stays registered exactly
  once; the destructor removes that registration, and none remains. Destroying the
  object right after building it gives back the observer list as it was.
\<close>

theorem one_observer_registration:
  assumes "this \<notin> set (observers p)" and "Destroys this \<notin> set acts"
  shows "count_list (observers (PowerMonitor_ctor this p)) this = 1
    \<and> count_list (observers (run acts (PowerMonitor_ctor this p))) this = 1
    \<and> this \<notin> set (observers (PowerMonitor_dtor this (run acts (PowerMonitor_ctor this p))))
    \<and> observers (PowerMonitor_dtor this (PowerMonitor_ctor this p)) = observers p"
proof -
  have one: "count_list (observers (PowerMonitor_ctor this p)) this = 1"
    using assms(1) by (simp add: PowerMonitor_ctor_def count_AddObserver)
  then have kept: "count_list (observers (run acts (PowerMonitor_ctor this p))) this = 1"
    using assms(2) by (rule run_keeps_registration)
  then have "this \<notin> set (observers (PowerMonitor_dtor this (run acts (PowerMonitor_ctor this p))))"
    by (simp add: PowerMonitor_dtor_def RemoveObserver_def remove1_last_registration)
  moreover have "observers (PowerMonitor_dtor this (PowerMonitor_ctor this p)) = observers p"
    using assms(1)
    by (simp add: PowerMonitor_dtor_def PowerMonitor_ctor_def RemoveObserver_def
        AddObserver_def remove1_append)
  ultimately show ?thesis using one kept by simp
qed

theorem one_observer_registration_witness:
  "(0::nat) \<notin> set (observers (ready_process\<lparr>next_object := 1\<rparr>))
   \<and> Destroys 0 \<notin> set [Notifies 0 Suspend, Creates, Destroys 1]
   \<and> count_list (observers (PowerMonitor_ctor 0 (ready_process\<lparr>next_object := 1\<rparr>))) 0 = 1
   \<and> observers (run [Notifies 0 Suspend, Creates, Destroys 1]
        (PowerMonitor_ctor 0 (ready_process\<lparr>next_object := 1\<rparr>))) = [0]
   \<and> observers (PowerMonitor_dtor 0 (run [Notifies 0 Suspend, Creates, Destroys 1]
        (PowerMonitor_ctor 0 (ready_process\<lparr>next_object := 1\<rparr>)))) = []"
  using one_observer_registration
    [of 0 "ready_process\<lparr>next_object := 1\<rparr>" "[Notifies 0 Suspend, Creates, Destroys 1]"]
  by (simp add: starting_process_def ready_process_def run_def Create_def
      new_PowerMonitor_def CreateHandle_def PowerMonitor_ctor_def PowerMonitor_dtor_def
      AddObserver_def RemoveObserver_def OnSuspend_def Emit_def Let_def)

section \<open>Properties of the message box\<close>

subsection \<open>Indices that fit an int\<close>

lemma sint_int_of_size_t: "i \<le> INT_MAX \<Longrightarrow> sint (int_of_size_t i) = int i"
  unfolding INT_MAX_def int_of_size_t_def
  by (simp add: signed_of_nat signed_take_bit_int_eq_self)

lemma int_of_size_t_not_minus_one: "i \<le> INT_MAX \<Longrightarrow> int_of_size_t i \<noteq> - 1"
  using sint_int_of_size_t [of i] by auto

subsection \<open>The comparison with a lower-case word\<close>

lemma LowerCaseEqualsASCII_map: "LowerCaseEqualsASCII a b = (map ToLowerASCII a = b)"
  by (induction a b rule: LowerCaseEqualsASCII.induct) auto

subsection \<open>The constructor\<close>

text \<open>The loop of the constructor makes the buttons of the labels from \<open>i\<close> on.\<close>

lemma MessageDialog_buttons_eq:
  "MessageDialog_buttons tk buttons i bs =
     Inr (bs @ map (\<lambda>j. SetStyle STYLE_NATIVE_TEXTBUTTON
                     (set_min_size (new_Size 60 20)
                       (set_tag (int_of_size_t j)
                         (new_LabelButton (UTF8ToUTF16 tk (buttons ! j))))))
               [i..<length buttons])"
proof (induction tk buttons i bs rule: MessageDialog_buttons.induct)
  case (1 tk buttons i bs)
  show ?case
  proof (cases "i < length buttons")
    case True
    then have at: "at_index buttons i = Inr (buttons ! i)" by (simp add: at_index_def)
    have upt: "[i..<length buttons] = i # [i + 1..<length buttons]"
      using True by (simp add: upt_conv_Cons)
    show ?thesis
      apply (subst MessageDialog_buttons.simps)
      apply (subst upt)
      apply (simp only: True at if_True sum.case Let_def)
      apply (subst "1" [OF True at refl refl refl refl])
      apply simp
      done
  next
    case False
    then show ?thesis by (subst MessageDialog_buttons.simps) simp
  qed
qed

lemma map_tag_update: "tag b = tag (bs ! i) \<Longrightarrow> map tag (bs[i := b]) = map tag bs"
  by (metis list_update_id map_update)

lemma ctor_nonempty:
  assumes "buttons \<noteq> []"
  shows "\<exists>d. MessageDialog_ctor tk parent_window type buttons title message_text detail = Inr d
    \<and> well_tagged (length buttons) d \<and> \<not> m_should_close d \<and> m_result d = - 1"
proof -
  let ?mk = "\<lambda>j. SetStyle STYLE_NATIVE_TEXTBUTTON
                     (set_min_size (new_Size 60 20)
                       (set_tag (int_of_size_t j)
                         (new_LabelButton (UTF8ToUTF16 tk (buttons ! j)))))"
  define bs where "bs = map ?mk [0..<length buttons]"
  have mk: "MessageDialog_buttons tk buttons 0 [] = Inr bs"
    by (simp add: MessageDialog_buttons_eq bs_def)
  have len: "length bs = length buttons"
    by (simp add: bs_def)
  with assms have at0: "at_index bs 0 = Inr (bs ! 0)"
    by (simp add: at_index_def)
  have tags: "map tag bs = map int_of_size_t [0..<length buttons]"
    unfolding bs_def by (simp add: SetStyle_def set_min_size_def set_tag_def)
  have upd: "map tag (bs[0 := SetIsDefault True (bs ! 0)]) = map tag bs"
    by (rule map_tag_update) (simp add: SetIsDefault_def)
  define d where "d = \<lparr>m_should_close = False, m_result = - 1,
      m_widget = Show (Init (map_option GetNativeWindow parent_window)
                   (set_frame_type FRAME_TYPE_FORCE_NATIVE new_Widget)),
      m_message_box_view = new_MessageBoxView
        ((new_InitParams (UTF8ToUTF16 tk title))\<lparr>message := UTF8ToUTF16 tk message_text\<rparr>),
      m_buttons = bs[0 := SetIsDefault True (bs ! 0)],
      owned_by_client = True, background = Some (sys_color_window tk)\<rparr>"
  have "MessageDialog_ctor tk parent_window type buttons title message_text detail = Inr d"
    using assms by (simp add: MessageDialog_ctor_def Let_def mk at0 d_def)
  moreover have "well_tagged (length buttons) d"
    using assms unfolding well_tagged_def d_def by (simp only: MessageDialog.simps upd tags) simp
  moreover have "\<not> m_should_close d \<and> m_result d = - 1"
    by (simp add: d_def)
  ultimately show ?thesis by blast
qed

lemma ctor_empty:
  "MessageDialog_ctor tk parent_window type [] title message_text detail =
     Inl (if dcheck_is_on tk then DCheckFailed else IndexOutOfRange)"
  by (simp add: MessageDialog_ctor_def MessageDialog_buttons_eq at_index_def Let_def)

subsection \<open>The calls on the dialog keep its invariant\<close>

lemma GetPreferredSize_loop_ok: "\<exists>sz'. GetPreferredSize_loop tk bs i sz = Inr sz'"
proof (induction tk bs i sz rule: GetPreferredSize_loop.induct)
  case (1 tk bs i sz)
  show ?case
  proof (cases "i < length bs")
    case True
    then show ?thesis
      using 1 by (subst GetPreferredSize_loop.simps) (simp add: at_index_def)
  next
    case False
    then show ?thesis by (subst GetPreferredSize_loop.simps) simp
  qed
qed

lemma Layout_loop_ok:
  "\<exists>bs'. Layout_loop tk bounds h i x bs = Inr bs' \<and> map tag bs' = map tag bs"
proof (induction tk bounds h i x bs rule: Layout_loop.induct)
  case (1 tk bounds h i x bs)
  show ?case
  proof (cases "i < length bs")
    case True
    let ?sz = "button_preferred_size tk (bs ! i)"
    let ?x = "x - (width ?sz + kRelatedButtonHSpacing tk)"
    let ?bs = "bs[i := SetBounds ?x (rect_height bounds - h) (width ?sz) (height ?sz) (bs ! i)]"
    from True have "at_index bs i = Inr (bs ! i)" by (simp add: at_index_def)
    from "1" [OF True this refl refl]
    obtain bs' where "Layout_loop tk bounds h (i + 1) ?x ?bs = Inr bs'"
      and "map tag bs' = map tag ?bs" by blast
    moreover have "map tag ?bs = map tag bs"
      by (rule map_tag_update) (simp add: SetBounds_def)
    ultimately show ?thesis
      using True by (subst Layout_loop.simps) (simp add: at_index_def Let_def)
  next
    case False
    then show ?thesis by (subst Layout_loop.simps) simp
  qed
qed

lemma well_tagged_length: "well_tagged n d \<Longrightarrow> length (m_buttons d) = n \<and> 0 < n"
  unfolding well_tagged_def by (metis length_map length_upt diff_zero)

lemma well_tagged_nth: "well_tagged n d \<Longrightarrow> i < n \<Longrightarrow> tag (m_buttons d ! i) = int_of_size_t i"
proof -
  assume a: "well_tagged n d" and b: "i < n"
  then have len: "length (m_buttons d) = n" by (simp add: well_tagged_length)
  from a have "map tag (m_buttons d) ! i = map int_of_size_t [0..<n] ! i"
    by (simp add: well_tagged_def)
  with len b show ?thesis by simp
qed

lemma GetPreferredSize_ok:
  assumes "well_tagged n d"
  shows "\<exists>sz. GetPreferredSize tk d = Inr sz"
proof -
  from assms have at0: "at_index (m_buttons d) 0 = Inr (m_buttons d ! 0)"
    by (simp add: at_index_def well_tagged_length)
  obtain sz where "GetPreferredSize_loop tk (m_buttons d) 0
      (new_Size 0 (height (button_preferred_size tk (m_buttons d ! 0)))) = Inr sz"
    using GetPreferredSize_loop_ok by blast
  with at0 show ?thesis
    by (simp add: GetPreferredSize_def Let_def)
qed

lemma Layout_ok:
  assumes "well_tagged n d"
  shows "\<exists>d'. Layout tk bounds d = Inr d' \<and> well_tagged n d'
    \<and> m_result d' = m_result d \<and> m_should_close d' = m_should_close d"
proof -
  from assms have len: "0 < length (m_buttons d)" by (simp add: well_tagged_length)
  let ?h = "height (button_preferred_size tk (m_buttons d ! 0)) + kRelatedControlVerticalSpacing tk"
  obtain bs' where "Layout_loop tk bounds ?h 0 (rect_width bounds) (m_buttons d) = Inr bs'"
    and "map tag bs' = map tag (m_buttons d)"
    using Layout_loop_ok by blast
  with assms len show ?thesis
    by (simp add: Layout_def at_index_def Let_def well_tagged_def)
qed

lemma deliver_ok:
  assumes "well_tagged n d"
  shows "\<exists>d'. deliver tk c d = Inr d' \<and> well_tagged n d'
    \<and> m_result d' = (case c of NotifyClick i \<Rightarrow> if i < n then int_of_size_t i else m_result d
                       | _ \<Rightarrow> m_result d)
    \<and> m_should_close d' = (m_should_close d \<or> c = WidgetDestroying)"
proof (cases c)
  case (NotifyClick i)
  with assms show ?thesis
    using well_tagged_length [OF assms] well_tagged_nth [OF assms, of i]
    by (auto simp: ButtonPressed_def well_tagged_def)
next
  case WidgetDestroying
  with assms show ?thesis by (simp add: WindowClosing_def well_tagged_def)
next
  case (LayoutPass bounds)
  with Layout_ok [OF assms, of tk bounds] show ?thesis by auto
next
  case SizeRequest
  with GetPreferredSize_ok [OF assms, of tk] assms show ?thesis by auto
qed

lemma DispatchMessage_ok:
  "well_tagged n d \<Longrightarrow>
   \<exists>d'. DispatchMessage tk cs d = Inr d' \<and> well_tagged n d'
     \<and> m_result d' = (case pressed n cs of Some i \<Rightarrow> int_of_size_t i | None \<Rightarrow> m_result d)
     \<and> m_should_close d' = (m_should_close d \<or> WidgetDestroying \<in> set cs)"
proof (induction cs arbitrary: d)
  case Nil
  then show ?case by simp
next
  case (Cons c cs)
  from deliver_ok [OF Cons.prems, of tk c] obtain d1 where
    d1: "deliver tk c d = Inr d1" "well_tagged n d1"
      "m_result d1 = (case c of NotifyClick i \<Rightarrow> if i < n then int_of_size_t i else m_result d
                       | _ \<Rightarrow> m_result d)"
      "m_should_close d1 = (m_should_close d \<or> c = WidgetDestroying)"
    by blast
  from Cons.IH [OF d1(2)] obtain d' where
    d': "DispatchMessage tk cs d1 = Inr d'" "well_tagged n d'"
      "m_result d' = (case pressed n cs of Some i \<Rightarrow> int_of_size_t i | None \<Rightarrow> m_result d1)"
      "m_should_close d' = (m_should_close d1 \<or> WidgetDestroying \<in> set cs)"
    by blast
  from d1 d' show ?case
    by (auto split: option.splits callback.splits)
qed

subsection \<open>The loop\<close>

lemma DispatchMessage_append:
  "DispatchMessage tk (cs @ cs') d =
     (case DispatchMessage tk cs d of Inl e \<Rightarrow> Inl e | Inr d' \<Rightarrow> DispatchMessage tk cs' d')"
  by (induction cs arbitrary: d) (auto split: sum.splits)

lemma Run_waits:
  "well_tagged n d \<Longrightarrow> \<not> m_should_close d \<Longrightarrow> WidgetDestroying \<notin> set (concat events) \<Longrightarrow>
   Run tk events d = None"
proof (induction events arbitrary: d)
  case Nil
  then show ?case by simp
next
  case (Cons event events)
  from DispatchMessage_ok [OF Cons.prems(1), of tk event] obtain d' where
    d': "DispatchMessage tk event d = Inr d'" "well_tagged n d'"
      "m_should_close d' = (m_should_close d \<or> WidgetDestroying \<in> set event)"
    by blast
  with Cons.prems have "\<not> m_should_close d'" by simp
  with Cons.IH [OF d'(2)] Cons.prems(3) d'(1) show ?case
    by (simp add: Dispatch_def)
qed

lemma Run_returns:
  "well_tagged n d \<Longrightarrow> \<not> m_should_close d \<Longrightarrow> WidgetDestroying \<notin> set (concat before) \<Longrightarrow>
   WidgetDestroying \<in> set closing \<Longrightarrow>
   \<exists>d'. Run tk (before @ closing # after) d = Some (Inr d')
     \<and> DispatchMessage tk (concat before @ closing) d = Inr d'"
proof (induction before arbitrary: d)
  case Nil
  from DispatchMessage_ok [OF Nil.prems(1), of tk closing] Nil.prems(4) show ?case
    by (auto simp: Dispatch_def)
next
  case (Cons event before)
  from DispatchMessage_ok [OF Cons.prems(1), of tk event] obtain d1 where
    d1: "DispatchMessage tk event d = Inr d1" "well_tagged n d1"
      "m_should_close d1 = (m_should_close d \<or> WidgetDestroying \<in> set event)"
    by blast
  with Cons.prems have open1: "\<not> m_should_close d1" by simp
  from Cons.IH [OF d1(2) open1] Cons.prems obtain d' where
    "Run tk (before @ closing # after) d1 = Some (Inr d')"
    "DispatchMessage tk (concat before @ closing) d1 = Inr d'"
    by auto
  with d1(1) open1 show ?case
    by (simp add: Dispatch_def DispatchMessage_append)
qed

lemma first_closing:
  "WidgetDestroying \<in> set (concat events) \<Longrightarrow>
   \<exists>before closing after. events = before @ closing # after
     \<and> WidgetDestroying \<notin> set (concat before) \<and> WidgetDestroying \<in> set closing"
proof -
  assume "WidgetDestroying \<in> set (concat events)"
  then have "\<exists>ev \<in> set events. WidgetDestroying \<in> set ev" by auto
  then obtain before closing after where
    "events = before @ closing # after" "WidgetDestroying \<in> set closing"
    "\<forall>ev \<in> set before. WidgetDestroying \<notin> set ev"
    by (auto dest!: split_list_first_prop)
  then show ?thesis by auto
qed

subsection \<open>The search for the cancel button\<close>

lemma ShowMessageBox_loop_none:
  "(\<forall>j. i \<le> j \<and> j < length buttons \<longrightarrow> \<not> LowerCaseEqualsASCII (buttons ! j) ''cancel'') \<Longrightarrow>
   ShowMessageBox_loop buttons i = Inr 0"
proof (induction buttons i rule: ShowMessageBox_loop.induct)
  case (1 buttons i)
  show ?case
  proof (cases "i < length buttons")
    case True
    with 1 show ?thesis
      by (subst ShowMessageBox_loop.simps) (simp add: at_index_def)
  next
    case False
    then show ?thesis by (subst ShowMessageBox_loop.simps) simp
  qed
qed

lemma ShowMessageBox_loop_first:
  "i \<le> k \<Longrightarrow> k < length buttons \<Longrightarrow> LowerCaseEqualsASCII (buttons ! k) ''cancel'' \<Longrightarrow>
   (\<forall>j. i \<le> j \<and> j < k \<longrightarrow> \<not> LowerCaseEqualsASCII (buttons ! j) ''cancel'') \<Longrightarrow>
   ShowMessageBox_loop buttons i = Inr (int_of_size_t k)"
proof (induction buttons i rule: ShowMessageBox_loop.induct)
  case (1 buttons i)
  show ?case
  proof (cases "i = k")
    case True
    with 1 show ?thesis
      by (subst ShowMessageBox_loop.simps) (simp add: at_index_def)
  next
    case False
    with "1.prems" have lt: "i < k" "i < length buttons"
      and no: "\<not> LowerCaseEqualsASCII (buttons ! i) ''cancel''" by auto
    from lt have at: "at_index buttons i = Inr (buttons ! i)" by (simp add: at_index_def)
    from "1.IH" [OF lt(2) at no] "1.prems" lt
    have "ShowMessageBox_loop buttons (i + 1) = Inr (int_of_size_t k)" by auto
    with lt no show ?thesis
      by (subst ShowMessageBox_loop.simps) (simp add: at_index_def)
  qed
qed

lemma ShowMessageBox_loop_range:
  "\<exists>k. ShowMessageBox_loop buttons i = Inr (int_of_size_t k) \<and> (k = 0 \<or> k < length buttons)"
proof (induction buttons i rule: ShowMessageBox_loop.induct)
  case (1 buttons i)
  show ?case
  proof (cases "i < length buttons")
    case True
    show ?thesis
    proof (cases "LowerCaseEqualsASCII (buttons ! i) ''cancel''")
      case c: True
      with True show ?thesis
        by (subst ShowMessageBox_loop.simps) (auto simp: at_index_def)
    next
      case c: False
      with True 1 show ?thesis
        by (subst ShowMessageBox_loop.simps) (simp add: at_index_def)
    qed
  next
    case False
    then show ?thesis
      by (subst ShowMessageBox_loop.simps) (auto simp: int_of_size_t_def intro: exI [of _ 0])
  qed
qed

lemma pressed_in_range: "pressed n cs = Some i \<Longrightarrow> i < n"
  by (induction cs) (auto split: option.splits callback.splits if_splits)

subsection \<open>What ShowMessageBox gives\<close>

text \<open>
  Once an event closes the window, the outcome is fixed by the button pressed in the calls
  delivered up to and including that event.
\<close>

lemma ShowMessageBox_dismissed:
  assumes "buttons \<noteq> []"
    and "WidgetDestroying \<notin> set (concat before)"
    and "WidgetDestroying \<in> set closing"
  shows "ShowMessageBox tk parent_window type buttons title message_text detail
           (before @ closing # after) =
     (case pressed (length buttons) (concat before @ closing) of
        Some i \<Rightarrow>
          if int_of_size_t i = - 1 then Some (ShowMessageBox_loop buttons 0)
          else Some (Inr (int_of_size_t i))
      | None \<Rightarrow> Some (ShowMessageBox_loop buttons 0))"
proof -
  from ctor_nonempty [OF assms(1), of tk parent_window type title message_text detail] obtain d where
    d: "MessageDialog_ctor tk parent_window type buttons title message_text detail = Inr d"
      "well_tagged (length buttons) d" "\<not> m_should_close d" "m_result d = - 1"
    by blast
  from Run_returns [OF d(2) d(3) assms(2) assms(3)] obtain d' where
    d': "Run tk (before @ closing # after) d = Some (Inr d')"
      "DispatchMessage tk (concat before @ closing) d = Inr d'"
    by blast
  from DispatchMessage_ok [OF d(2), of tk "concat before @ closing"] obtain d2 where
    d2: "DispatchMessage tk (concat before @ closing) d = Inr d2"
      "m_result d2 =
         (case pressed (length buttons) (concat before @ closing) of
            Some i \<Rightarrow> int_of_size_t i | None \<Rightarrow> m_result d)"
    by blast
  from d2(1) d'(2) have "d2 = d'" by simp
  with d2(2) d(4) have "m_result d' =
      (case pressed (length buttons) (concat before @ closing) of
         Some i \<Rightarrow> int_of_size_t i | None \<Rightarrow> - 1)"
    by (simp split: option.splits)
  with d(1) d'(1) show ?thesis
    by (simp add: ShowMessageBox_def result_def split: option.splits)
qed

lemma ShowMessageBox_waits:
  assumes "buttons \<noteq> []" and "WidgetDestroying \<notin> set (concat events)"
  shows "ShowMessageBox tk parent_window type buttons title message_text detail events = None"
proof -
  from ctor_nonempty [OF assms(1), of tk parent_window type title message_text detail] obtain d where
    d: "MessageDialog_ctor tk parent_window type buttons title message_text detail = Inr d"
      "well_tagged (length buttons) d" "\<not> m_should_close d"
    by blast
  from Run_waits [OF d(2) d(3) assms(2)] d(1) show ?thesis
    by (simp add: ShowMessageBox_def)
qed

lemma ShowMessageBox_no_error:
  assumes "buttons \<noteq> []"
  shows "ShowMessageBox tk parent_window type buttons title message_text detail events
    \<noteq> Some (Inl e)"
proof (cases "WidgetDestroying \<in> set (concat events)")
  case True
  then obtain before closing after where
    ev: "events = before @ closing # after" "WidgetDestroying \<notin> set (concat before)"
      "WidgetDestroying \<in> set closing"
    using first_closing by blast
  obtain k0 where k0: "ShowMessageBox_loop buttons 0 = Inr (int_of_size_t k0)"
    using ShowMessageBox_loop_range by blast
  with ShowMessageBox_dismissed [OF assms ev(2) ev(3), of tk parent_window type title message_text detail after] ev(1) show ?thesis
    by (auto split: option.splits if_splits)
next
  case False
  with ShowMessageBox_waits [OF assms, of events tk parent_window type title message_text detail] show ?thesis by simp
qed

text \<open>The equations that evaluate the model on a concrete input.\<close>

lemmas evaluate =
  ShowMessageBox_def MessageDialog_ctor_def test_toolkit_def MessageDialog_buttons.simps
  ShowMessageBox_loop.simps at_index_def Let_def Dispatch_def GetPreferredSize_def
  GetPreferredSize_loop.simps Layout_def Layout_loop.simps ButtonPressed_def
  WindowClosing_def result_def int_of_size_t_def new_LabelButton_def set_tag_def
  set_min_size_def SetStyle_def SetIsDefault_def SetBounds_def new_Size_def Enlarge_def
  set_width_def set_height_def ToLowerASCII_def char_of_def bit_Suc_0_iff

subsection \<open>The claims about the message box\<close>

text \<open>
  C1. When the user presses a button, \<open>ShowMessageBox\<close> returns the position of that
  button in the list of labels, whatever the toolkit, the parent window, the box type, the
  title, the message and the detail are. The events sent to the thread are those before
  the window closes, the event that closes it, and any that follow; the button pressed is
  the one of the last click delivered before the loop ends. The list of labels is no
  longer than the largest \<open>int\<close>, the type of the value returned.
\<close>

theorem pressed_button_is_returned:
  assumes "length buttons \<le> INT_MAX"
    and "WidgetDestroying \<notin> set (concat before)"
    and "WidgetDestroying \<in> set closing"
    and "pressed (length buttons) (concat before @ closing) = Some i"
  shows "i < length buttons
    \<and> ShowMessageBox tk parent_window type buttons title message_text detail
          (before @ closing # after) = Some (Inr (int_of_size_t i))
    \<and> sint (int_of_size_t i) = int i"
proof -
  from assms(4) have i: "i < length buttons" by (rule pressed_in_range)
  then have ne: "buttons \<noteq> []" by auto
  from i assms(1) have small: "i \<le> INT_MAX" by simp
  from ShowMessageBox_dismissed [OF ne assms(2) assms(3), of tk parent_window type title message_text detail after] assms(4)
    int_of_size_t_not_minus_one [OF small]
  have "ShowMessageBox tk parent_window type buttons title message_text detail
          (before @ closing # after) = Some (Inr (int_of_size_t i))"
    by simp
  with i sint_int_of_size_t [OF small] show ?thesis by simp
qed

theorem pressed_button_is_returned_witness:
  "length [''Save'', ''Discard'', ''Cancel''] \<le> INT_MAX
   \<and> WidgetDestroying \<notin> set (concat [[SizeRequest], [NotifyClick 1]])
   \<and> WidgetDestroying \<in> set [WidgetDestroying]
   \<and> pressed (length [''Save'', ''Discard'', ''Cancel''])
        (concat [[SizeRequest], [NotifyClick 1]] @ [WidgetDestroying]) = Some 1
   \<and> ShowMessageBox test_toolkit None True [''Save'', ''Discard'', ''Cancel''] ''title''
        ''message'' ''detail'' ([[SizeRequest], [NotifyClick 1]] @ [WidgetDestroying] # [])
      = Some (Inr 1)"
proof -
  have h1: "length [''Save'', ''Discard'', ''Cancel''] \<le> INT_MAX"
    by (simp add: INT_MAX_def)
  have h2: "WidgetDestroying \<notin> set (concat [[SizeRequest], [NotifyClick 1]])"
    by simp
  have h3: "WidgetDestroying \<in> set [WidgetDestroying]"
    by simp
  have h4: "pressed (length [''Save'', ''Discard'', ''Cancel''])
        (concat [[SizeRequest], [NotifyClick 1]] @ [WidgetDestroying]) = Some 1"
    by simp
  from pressed_button_is_returned [OF h1 h2 h3 h4, of test_toolkit None True "''title''"
      "''message''" "''detail''" "[]"]
  show ?thesis using h1 h2 h3 h4 by (simp add: int_of_size_t_def)
qed

text \<open>
  C2. When the dialog is dismissed and no button was pressed, \<open>ShowMessageBox\<close> returns
  the index of the button whose label is \<open>cancel\<close> in any mix of upper and lower case
  (the first such button, should there be several), and 0 when no label is. The list of
  labels is not empty and no longer than the largest \<open>int\<close>.
\<close>

theorem unpressed_dialog_returns_cancel_or_zero:
  assumes "buttons \<noteq> []"
    and "length buttons \<le> INT_MAX"
    and "WidgetDestroying \<notin> set (concat before)"
    and "WidgetDestroying \<in> set closing"
    and "pressed (length buttons) (concat before @ closing) = None"
  shows "\<exists>r. ShowMessageBox tk parent_window type buttons title message_text detail
               (before @ closing # after) = Some (Inr r)
    \<and> ((\<forall>j < length buttons. \<not> LowerCaseEqualsASCII (buttons ! j) ''cancel'') \<longrightarrow> sint r = 0)
    \<and> (\<forall>k < length buttons.
          LowerCaseEqualsASCII (buttons ! k) ''cancel''
          \<and> (\<forall>j < k. \<not> LowerCaseEqualsASCII (buttons ! j) ''cancel'')
          \<longrightarrow> sint r = int k)"
proof -
  from ShowMessageBox_loop_range [of buttons 0] obtain k0 where
    k0: "ShowMessageBox_loop buttons 0 = Inr (int_of_size_t k0)" by blast
  let ?r = "int_of_size_t k0"
  from ShowMessageBox_dismissed [OF assms(1) assms(3) assms(4), of tk parent_window type title message_text detail after] assms(5) k0
  have ret: "ShowMessageBox tk parent_window type buttons title message_text detail
               (before @ closing # after) = Some (Inr ?r)"
    by simp
  have none: "sint ?r = 0"
    if "\<forall>j < length buttons. \<not> LowerCaseEqualsASCII (buttons ! j) ''cancel''"
  proof -
    from that have "ShowMessageBox_loop buttons 0 = Inr 0"
      by (intro ShowMessageBox_loop_none) simp
    with k0 show ?thesis by simp
  qed
  have some: "sint ?r = int k"
    if "k < length buttons" "LowerCaseEqualsASCII (buttons ! k) ''cancel''"
      "\<forall>j < k. \<not> LowerCaseEqualsASCII (buttons ! j) ''cancel''" for k
  proof -
    from that have "ShowMessageBox_loop buttons 0 = Inr (int_of_size_t k)"
      by (intro ShowMessageBox_loop_first) simp_all
    with k0 have "?r = int_of_size_t k" by simp
    moreover from that(1) assms(2) have "k \<le> INT_MAX" by simp
    ultimately show ?thesis by (simp add: sint_int_of_size_t)
  qed
  from ret none some show ?thesis by blast
qed

theorem unpressed_dialog_returns_cancel_or_zero_witness:
  "[''OK'', ''CANCEL''] \<noteq> []
   \<and> length [''OK'', ''CANCEL''] \<le> INT_MAX
   \<and> WidgetDestroying \<notin> set (concat [[SizeRequest]])
   \<and> WidgetDestroying \<in> set [WidgetDestroying]
   \<and> pressed (length [''OK'', ''CANCEL'']) (concat [[SizeRequest]] @ [WidgetDestroying]) = None
   \<and> LowerCaseEqualsASCII ([''OK'', ''CANCEL''] ! 1) ''cancel''
   \<and> \<not> LowerCaseEqualsASCII ([''OK'', ''CANCEL''] ! 0) ''cancel''
   \<and> (\<exists>r. ShowMessageBox test_toolkit None True [''OK'', ''CANCEL''] ''title'' ''message''
              ''detail'' ([[SizeRequest]] @ [WidgetDestroying] # []) = Some (Inr r)
          \<and> sint r = 1)
   \<and> [''Yes'', ''No''] \<noteq> []
   \<and> length [''Yes'', ''No''] \<le> INT_MAX
   \<and> pressed (length [''Yes'', ''No'']) (concat [[SizeRequest]] @ [WidgetDestroying]) = None
   \<and> \<not> LowerCaseEqualsASCII ([''Yes'', ''No''] ! 0) ''cancel''
   \<and> \<not> LowerCaseEqualsASCII ([''Yes'', ''No''] ! 1) ''cancel''
   \<and> (\<exists>r. ShowMessageBox test_toolkit None True [''Yes'', ''No''] ''title'' ''message''
              ''detail'' ([[SizeRequest]] @ [WidgetDestroying] # []) = Some (Inr r)
          \<and> sint r = 0)"
proof -
  have a1: "[''OK'', ''CANCEL''] \<noteq> []" by simp
  have a2: "length [''OK'', ''CANCEL''] \<le> INT_MAX" by (simp add: INT_MAX_def)
  have a3: "WidgetDestroying \<notin> set (concat [[SizeRequest]])" by simp
  have a4: "WidgetDestroying \<in> set [WidgetDestroying]" by simp
  have a5: "pressed (length [''OK'', ''CANCEL'']) (concat [[SizeRequest]] @ [WidgetDestroying])
      = None" by simp
  have a6: "LowerCaseEqualsASCII ([''OK'', ''CANCEL''] ! 1) ''cancel''"
    by (simp add: ToLowerASCII_def char_of_def bit_Suc_0_iff)
  have a7: "\<not> LowerCaseEqualsASCII ([''OK'', ''CANCEL''] ! 0) ''cancel''"
    by (simp add: ToLowerASCII_def char_of_def)
  have a8: "\<forall>j<1. \<not> LowerCaseEqualsASCII ([''OK'', ''CANCEL''] ! j) ''cancel''"
    using a7 by simp
  have b1: "[''Yes'', ''No''] \<noteq> []" by simp
  have b2: "length [''Yes'', ''No''] \<le> INT_MAX" by (simp add: INT_MAX_def)
  have b5: "pressed (length [''Yes'', ''No'']) (concat [[SizeRequest]] @ [WidgetDestroying])
      = None" by simp
  have b6: "\<not> LowerCaseEqualsASCII ([''Yes'', ''No''] ! 0) ''cancel''"
    by (simp add: ToLowerASCII_def char_of_def)
  have b7: "\<not> LowerCaseEqualsASCII ([''Yes'', ''No''] ! 1) ''cancel''"
    by (simp add: ToLowerASCII_def char_of_def)
  have b8: "\<forall>j<length [''Yes'', ''No'']. \<not> LowerCaseEqualsASCII ([''Yes'', ''No''] ! j) ''cancel''"
    using b6 b7 by (simp add: less_Suc_eq)
  from unpressed_dialog_returns_cancel_or_zero [OF a1 a2 a3 a4 a5, of test_toolkit None True
      "''title''" "''message''" "''detail''" "[]"]
  obtain r where r: "ShowMessageBox test_toolkit None True [''OK'', ''CANCEL''] ''title''
      ''message'' ''detail'' ([[SizeRequest]] @ [WidgetDestroying] # []) = Some (Inr r)"
    and rk: "\<forall>k < length [''OK'', ''CANCEL''].
          LowerCaseEqualsASCII ([''OK'', ''CANCEL''] ! k) ''cancel''
          \<and> (\<forall>j < k. \<not> LowerCaseEqualsASCII ([''OK'', ''CANCEL''] ! j) ''cancel'')
          \<longrightarrow> sint r = int k"
    by blast
  from rk [rule_format, of 1] a6 a8 have "sint r = 1" by simp
  with r have first: "\<exists>r. ShowMessageBox test_toolkit None True [''OK'', ''CANCEL''] ''title''
      ''message'' ''detail'' ([[SizeRequest]] @ [WidgetDestroying] # []) = Some (Inr r)
      \<and> sint r = 1" by blast
  from unpressed_dialog_returns_cancel_or_zero [OF b1 b2 a3 a4 b5, of test_toolkit None True
      "''title''" "''message''" "''detail''" "[]"] b8
  have second: "\<exists>r. ShowMessageBox test_toolkit None True [''Yes'', ''No''] ''title''
      ''message'' ''detail'' ([[SizeRequest]] @ [WidgetDestroying] # []) = Some (Inr r)
      \<and> sint r = 0" by blast
  from a1 a2 a3 a4 a5 a6 a7 first b1 b2 b5 b6 b7 second show ?thesis by blast
qed

text \<open>
  C5. The nested loop does not end before the window is closed. \<open>Dispatch\<close> tells the
  loop to go on exactly when \<open>should_close_\<close> is false as it returns; a button press
  leaves \<open>should_close_\<close> as it is and asks the widget to close; the only call on the
  dialog that turns \<open>should_close_\<close> from false to true is \<open>WindowClosing\<close>; so for
  a dialog with at least one button \<open>ShowMessageBox\<close> does not return while no event has
  closed the window, and whenever it returns a value the window has been closed.
\<close>

theorem loop_ends_only_after_window_closing:
  "(Dispatch tk event d = Inr (continue, d') \<longrightarrow> continue = (\<not> m_should_close d'))
   \<and> m_should_close (ButtonPressed sender d) = m_should_close d
   \<and> close_requested (m_widget (ButtonPressed sender d))
   \<and> (deliver tk c d = Inr d' \<and> \<not> m_should_close d \<and> m_should_close d'
        \<longrightarrow> c = WidgetDestroying \<and> d' = WindowClosing d)
   \<and> (buttons \<noteq> [] \<and> WidgetDestroying \<notin> set (concat events)
        \<longrightarrow> ShowMessageBox tk parent_window type buttons title message_text detail events = None)
   \<and> (ShowMessageBox tk parent_window type buttons title message_text detail events = Some (Inr r)
        \<longrightarrow> WidgetDestroying \<in> set (concat events))"
proof -
  have a: "continue = (\<not> m_should_close d')" if "Dispatch tk event d = Inr (continue, d')"
    using that by (auto simp: Dispatch_def split: sum.splits)
  have b: "c = WidgetDestroying \<and> d' = WindowClosing d"
    if "deliver tk c d = Inr d'" "\<not> m_should_close d" "m_should_close d'"
  proof (cases c)
    case (NotifyClick i)
    with that show ?thesis by (auto simp: ButtonPressed_def split: if_splits)
  next
    case WidgetDestroying
    with that show ?thesis by simp
  next
    case (LayoutPass bounds)
    with that show ?thesis
      by (auto simp: Layout_def Let_def split: sum.splits)
  next
    case SizeRequest
    with that show ?thesis by (auto split: sum.splits)
  qed
  have c: "ShowMessageBox tk parent_window type buttons title message_text detail events = None"
    if "buttons \<noteq> []" "WidgetDestroying \<notin> set (concat events)"
    using that by (rule ShowMessageBox_waits)
  have d: "WidgetDestroying \<in> set (concat events)"
    if r: "ShowMessageBox tk parent_window type buttons title message_text detail events
        = Some (Inr r)"
  proof (rule ccontr)
    assume no: "WidgetDestroying \<notin> set (concat events)"
    show False
    proof (cases "buttons = []")
      case True
      with r show False by (simp add: ShowMessageBox_def ctor_empty)
    next
      case False
      from ShowMessageBox_waits [OF False no, of tk parent_window type title message_text detail] r show False by simp
    qed
  qed
  have e: "m_should_close (ButtonPressed sender d) = m_should_close d
      \<and> close_requested (m_widget (ButtonPressed sender d))"
    by (simp add: ButtonPressed_def Close_def)
  from a b c d e show ?thesis by blast
qed

theorem loop_ends_only_after_window_closing_witness:
  "Dispatch test_toolkit [WidgetDestroying] sample_dialog
     = Inr (False, WindowClosing sample_dialog)
   \<and> False = (\<not> m_should_close (WindowClosing sample_dialog))
   \<and> deliver test_toolkit WidgetDestroying sample_dialog = Inr (WindowClosing sample_dialog)
   \<and> \<not> m_should_close sample_dialog
   \<and> m_should_close (WindowClosing sample_dialog)
   \<and> [''OK''] \<noteq> []
   \<and> WidgetDestroying \<notin> set (concat [[NotifyClick 0], [SizeRequest]])
   \<and> ShowMessageBox test_toolkit None True [''OK''] ''title'' ''message'' ''detail''
        [[NotifyClick 0], [SizeRequest]] = None
   \<and> ShowMessageBox test_toolkit None True [''OK''] ''title'' ''message'' ''detail''
        [[NotifyClick 0], [WidgetDestroying]] = Some (Inr 0)
   \<and> WidgetDestroying \<in> set (concat [[NotifyClick 0], [WidgetDestroying]])"
proof -
  have h1: "Dispatch test_toolkit [WidgetDestroying] sample_dialog
      = Inr (False, WindowClosing sample_dialog)"
    by (simp add: Dispatch_def WindowClosing_def)
  have h2: "deliver test_toolkit WidgetDestroying sample_dialog
      = Inr (WindowClosing sample_dialog)
      \<and> \<not> m_should_close sample_dialog \<and> m_should_close (WindowClosing sample_dialog)"
    by (simp add: WindowClosing_def sample_dialog_def)
  have h3: "[''OK''] \<noteq> [] \<and> WidgetDestroying \<notin> set (concat [[NotifyClick 0], [SizeRequest]])"
    by simp
  have h4: "ShowMessageBox test_toolkit None True [''OK''] ''title'' ''message'' ''detail''
        [[NotifyClick 0], [WidgetDestroying]] = Some (Inr 0)"
    by (simp add: evaluate)
  from loop_ends_only_after_window_closing [of test_toolkit "[WidgetDestroying]" sample_dialog
      False "WindowClosing sample_dialog" "new_LabelButton []" WidgetDestroying "[''OK'']"
      "[[NotifyClick 0], [SizeRequest]]" None True "''title''" "''message''" "''detail''" 0]
    h1 h2 h3
  have c1: "False = (\<not> m_should_close (WindowClosing sample_dialog))
    \<and> ShowMessageBox test_toolkit None True [''OK''] ''title'' ''message'' ''detail''
        [[NotifyClick 0], [SizeRequest]] = None"
    by blast
  from loop_ends_only_after_window_closing [of test_toolkit "[WidgetDestroying]" sample_dialog
      False "WindowClosing sample_dialog" "new_LabelButton []" WidgetDestroying "[''OK'']"
      "[[NotifyClick 0], [WidgetDestroying]]" None True "''title''" "''message''" "''detail''" 0]
    h4
  have c2: "WidgetDestroying \<in> set (concat [[NotifyClick 0], [WidgetDestroying]])"
    by blast
  from h1 h2 h3 h4 c1 c2 show ?thesis by blast
qed

text \<open>
  C7. For a list of labels that is not empty (and no longer than the largest \<open>int\<close>),
  whatever the events, what \<open>ShowMessageBox\<close> returns is a value, never an error, and
  that value is an index into the list: at least 0 and less than the number of labels.
  This covers the pressed button, the \<open>cancel\<close> button found after a dismissal, and the
  default 0.
\<close>

theorem returned_index_in_range:
  assumes "buttons \<noteq> []"
    and "length buttons \<le> INT_MAX"
    and "ShowMessageBox tk parent_window type buttons title message_text detail events
           = Some outcome"
  shows "\<exists>r. outcome = Inr r \<and> 0 \<le> sint r \<and> sint r < int (length buttons)"
proof -
  have "WidgetDestroying \<in> set (concat events)"
    using ShowMessageBox_waits [OF assms(1), of events tk parent_window type title message_text detail] assms(3) by auto
  then obtain before closing after where
    ev: "events = before @ closing # after" "WidgetDestroying \<notin> set (concat before)"
      "WidgetDestroying \<in> set closing"
    using first_closing by blast
  obtain k0 where k0: "ShowMessageBox_loop buttons 0 = Inr (int_of_size_t k0)"
      "k0 = 0 \<or> k0 < length buttons"
    using ShowMessageBox_loop_range by blast
  with assms(1) have k0_lt: "k0 < length buttons" by auto
  have "\<exists>k < length buttons. outcome = Inr (int_of_size_t k)"
  proof (cases "pressed (length buttons) (concat before @ closing)")
    case None
    with ShowMessageBox_dismissed [OF assms(1) ev(2) ev(3), of tk parent_window type title message_text detail after] assms(3) ev(1) k0(1) k0_lt
    show ?thesis by auto
  next
    case (Some i)
    then have i: "i < length buttons" by (rule pressed_in_range)
    with assms(2) have "int_of_size_t i \<noteq> - 1"
      by (intro int_of_size_t_not_minus_one) simp
    with Some ShowMessageBox_dismissed [OF assms(1) ev(2) ev(3), of tk parent_window type title message_text detail after] assms(3) ev(1) i
    show ?thesis by auto
  qed
  then obtain k where k: "k < length buttons" "outcome = Inr (int_of_size_t k)" by blast
  with assms(2) have "sint (int_of_size_t k) = int k"
    by (intro sint_int_of_size_t) simp
  with k show ?thesis by simp
qed

theorem returned_index_in_range_witness:
  "[''Save'', ''Discard'', ''Cancel''] \<noteq> []
   \<and> length [''Save'', ''Discard'', ''Cancel''] \<le> INT_MAX
   \<and> ShowMessageBox test_toolkit None True [''Save'', ''Discard'', ''Cancel''] ''title''
        ''message'' ''detail'' [[NotifyClick 1], [WidgetDestroying]] = Some (Inr 1)
   \<and> 0 \<le> sint (1 :: int32) \<and> sint (1 :: int32) < int (length [''Save'', ''Discard'', ''Cancel''])
   \<and> ShowMessageBox test_toolkit None True [''Save'', ''Discard'', ''Cancel''] ''title''
        ''message'' ''detail'' [[WidgetDestroying]] = Some (Inr 2)
   \<and> 0 \<le> sint (2 :: int32) \<and> sint (2 :: int32) < int (length [''Save'', ''Discard'', ''Cancel''])
   \<and> [''Yes'', ''No''] \<noteq> []
   \<and> length [''Yes'', ''No''] \<le> INT_MAX
   \<and> ShowMessageBox test_toolkit None True [''Yes'', ''No''] ''title''
        ''message'' ''detail'' [[WidgetDestroying]] = Some (Inr 0)
   \<and> 0 \<le> sint (0 :: int32) \<and> sint (0 :: int32) < int (length [''Yes'', ''No''])"
proof -
  have a1: "[''Save'', ''Discard'', ''Cancel''] \<noteq> []" by simp
  have a2: "length [''Save'', ''Discard'', ''Cancel''] \<le> INT_MAX" by (simp add: INT_MAX_def)
  have a3: "ShowMessageBox test_toolkit None True [''Save'', ''Discard'', ''Cancel''] ''title''
        ''message'' ''detail'' [[NotifyClick 1], [WidgetDestroying]] = Some (Inr 1)"
    by (simp add: evaluate)
  have a4: "ShowMessageBox test_toolkit None True [''Save'', ''Discard'', ''Cancel''] ''title''
        ''message'' ''detail'' [[WidgetDestroying]] = Some (Inr 2)"
    by (simp add: evaluate)
  have b1: "[''Yes'', ''No''] \<noteq> []" by simp
  have b2: "length [''Yes'', ''No''] \<le> INT_MAX" by (simp add: INT_MAX_def)
  have b3: "ShowMessageBox test_toolkit None True [''Yes'', ''No''] ''title''
        ''message'' ''detail'' [[WidgetDestroying]] = Some (Inr 0)"
    by (simp add: evaluate)
  note c1 = returned_index_in_range [OF a1 a2 a3]
  note c2 = returned_index_in_range [OF a1 a2 a4]
  note c3 = returned_index_in_range [OF b1 b2 b3]
  from a1 a2 a3 a4 b1 b2 b3 c1 c2 c3 show ?thesis by auto
qed

text \<open>
  C8. The list of labels must not be empty. For a list that is not empty the constructor
  succeeds, and after any calls the toolkit makes on the dialog the number of buttons is
  still the number of labels, \<open>GetPreferredSize\<close> and \<open>Layout\<close> read \<open>buttons_\<close> in range,
  and \<open>ShowMessageBox\<close> never ends in an error. For the empty list the constructor fails:
  at the \<open>DCHECK\<close> where it is compiled in, at the read of \<open>buttons_[0]\<close> otherwise.
\<close>

theorem nonempty_labels_keep_reads_in_range:
  "(buttons \<noteq> [] \<longrightarrow>
      (\<exists>d. MessageDialog_ctor tk parent_window type buttons title message_text detail = Inr d
         \<and> (\<forall>cs. \<exists>d'. DispatchMessage tk cs d = Inr d'
               \<and> length (m_buttons d') = length buttons
               \<and> (\<exists>sz. GetPreferredSize tk d' = Inr sz)
               \<and> (\<forall>bounds. \<exists>d''. Layout tk bounds d' = Inr d'')))
      \<and> (\<forall>events e. ShowMessageBox tk parent_window type buttons title message_text detail events
            \<noteq> Some (Inl e)))
   \<and> (buttons = [] \<longrightarrow>
        MessageDialog_ctor tk parent_window type buttons title message_text detail
          = Inl (if dcheck_is_on tk then DCheckFailed else IndexOutOfRange))"
proof -
  have "\<exists>d. MessageDialog_ctor tk parent_window type buttons title message_text detail = Inr d
         \<and> (\<forall>cs. \<exists>d'. DispatchMessage tk cs d = Inr d'
               \<and> length (m_buttons d') = length buttons
               \<and> (\<exists>sz. GetPreferredSize tk d' = Inr sz)
               \<and> (\<forall>bounds. \<exists>d''. Layout tk bounds d' = Inr d''))"
    if ne: "buttons \<noteq> []"
  proof -
    from ctor_nonempty [OF ne, of tk parent_window type title message_text detail] obtain d where
      d: "MessageDialog_ctor tk parent_window type buttons title message_text detail = Inr d"
        "well_tagged (length buttons) d"
      by blast
    have "\<exists>d'. DispatchMessage tk cs d = Inr d'
               \<and> length (m_buttons d') = length buttons
               \<and> (\<exists>sz. GetPreferredSize tk d' = Inr sz)
               \<and> (\<forall>bounds. \<exists>d''. Layout tk bounds d' = Inr d'')" for cs
    proof -
      from DispatchMessage_ok [OF d(2), of tk cs] obtain d' where
        d': "DispatchMessage tk cs d = Inr d'" "well_tagged (length buttons) d'" by blast
      from d'(2) have "length (m_buttons d') = length buttons"
        by (simp add: well_tagged_length)
      moreover from GetPreferredSize_ok [OF d'(2)] have "\<exists>sz. GetPreferredSize tk d' = Inr sz" .
      moreover from Layout_ok [OF d'(2)] have "\<forall>bounds. \<exists>d''. Layout tk bounds d' = Inr d''"
        by blast
      ultimately show ?thesis using d'(1) by blast
    qed
    with d(1) show ?thesis by blast
  qed
  moreover have "\<forall>events e. ShowMessageBox tk parent_window type buttons title message_text detail events
            \<noteq> Some (Inl e)" if "buttons \<noteq> []"
    using ShowMessageBox_no_error [OF that, of tk parent_window type title message_text detail]
    by blast
  moreover have "MessageDialog_ctor tk parent_window type buttons title message_text detail
          = Inl (if dcheck_is_on tk then DCheckFailed else IndexOutOfRange)" if "buttons = []"
    using that by (simp add: ctor_empty)
  ultimately show ?thesis by blast
qed

theorem nonempty_labels_keep_reads_in_range_witness:
  "[''OK'', ''Cancel''] \<noteq> []
   \<and> (\<exists>d. MessageDialog_ctor test_toolkit None True [''OK'', ''Cancel''] ''title'' ''message''
            ''detail'' = Inr d
        \<and> (\<exists>d'. DispatchMessage test_toolkit
                   [LayoutPass \<lparr>rect_x = 0, rect_y = 0, rect_width = 300, rect_height = 120\<rparr>,
                    SizeRequest, NotifyClick 1] d = Inr d'
              \<and> length (m_buttons d') = length [''OK'', ''Cancel'']
              \<and> (\<exists>sz. GetPreferredSize test_toolkit d' = Inr sz)))
   \<and> MessageDialog_ctor test_toolkit None True [] ''title'' ''message'' ''detail''
        = Inl IndexOutOfRange
   \<and> MessageDialog_ctor (test_toolkit\<lparr>dcheck_is_on := True\<rparr>) None True [] ''title''
        ''message'' ''detail'' = Inl DCheckFailed"
proof -
  have a1: "[''OK'', ''Cancel''] \<noteq> []" by simp
  have a2: "([] :: string list) = []" by simp
  from nonempty_labels_keep_reads_in_range [of "[''OK'', ''Cancel'']" test_toolkit None True
      "''title''" "''message''" "''detail''"] a1
  have c1: "\<exists>d. MessageDialog_ctor test_toolkit None True [''OK'', ''Cancel''] ''title'' ''message''
            ''detail'' = Inr d
        \<and> (\<exists>d'. DispatchMessage test_toolkit
                   [LayoutPass \<lparr>rect_x = 0, rect_y = 0, rect_width = 300, rect_height = 120\<rparr>,
                    SizeRequest, NotifyClick 1] d = Inr d'
              \<and> length (m_buttons d') = length [''OK'', ''Cancel'']
              \<and> (\<exists>sz. GetPreferredSize test_toolkit d' = Inr sz))"
    by blast
  from nonempty_labels_keep_reads_in_range [of "[]" test_toolkit None True
      "''title''" "''message''" "''detail''"] a2
  have c2: "MessageDialog_ctor test_toolkit None True [] ''title'' ''message'' ''detail''
        = Inl IndexOutOfRange"
    by (simp add: test_toolkit_def)
  from nonempty_labels_keep_reads_in_range [of "[]" "test_toolkit\<lparr>dcheck_is_on := True\<rparr>" None
      True "''title''" "''message''" "''detail''"] a2
  have c3: "MessageDialog_ctor (test_toolkit\<lparr>dcheck_is_on := True\<rparr>) None True [] ''title''
        ''message'' ''detail'' = Inl DCheckFailed"
    by simp
  from a1 c1 c2 c3 show ?thesis by blast
qed

text \<open>
  C9. The value \<open>ShowMessageBox\<close> returns does not depend on the box type or the detail
  string: two calls that differ in these two arguments only, and receive the same events,
  build the same dialog and return the same.
\<close>

theorem result_ignores_type_and_detail:
  "ShowMessageBox tk parent_window type buttons title message_text detail events
     = ShowMessageBox tk parent_window type' buttons title message_text detail' events
   \<and> MessageDialog_ctor tk parent_window type buttons title message_text detail
     = MessageDialog_ctor tk parent_window type' buttons title message_text detail'"
  by (simp add: ShowMessageBox_def MessageDialog_ctor_def)

end
